theory Spec2Isabelle
  imports Complex_Main
begin

section \<open>The experiment driver \<^verbatim>\<open>example_experiment2_lq_cma.py\<close>\<close>

text \<open>
  The script benchmarks an optimizer on the problems of a COCO suite. The suite, the
  problems, the optimizers and the clock are external libraries: they enter the model as
  the fields of a record of functions over an unknown world state \<open>'w\<close> (random
  generator, observer files, clock). What the driver itself does is modelled line by line:
  the imports and the \<^verbatim>\<open>__main__\<close> block, the batch filter, the restart loop, the two
  \<^verbatim>\<open>defaultdict\<close>s and the results file. Progress lines written to the terminal
  are left out.
\<close>

subsection \<open>Python values\<close>

datatype error =
    NameError string
  | ValueError string
  | ZeroDivisionError
  | IndexError

text \<open>
  A Python number read from a literal (\<^verbatim>\<open>2 * 1e5 + 0\<close>, \<^verbatim>\<open>budget_multiplier=3\<close>) is a
  rational here; \<^verbatim>\<open>int(x)\<close> on a number drops the fractional part (towards zero).
\<close>

definition py_int :: "rat \<Rightarrow> int" where
  "py_int x = (if x < 0 then - \<lfloor>- x\<rfloor> else \<lfloor>x\<rfloor>)"

text \<open>True division \<^verbatim>\<open>a / b\<close> raises on a zero divisor.\<close>

definition py_truediv :: "rat \<Rightarrow> rat \<Rightarrow> error + rat" where
  "py_truediv a b = (if b = 0 then Inl ZeroDivisionError else Inr (a / b))"

text \<open>
  \<^verbatim>\<open>a % b\<close> on Python integers: the result has the sign of the divisor, as \<open>mod\<close>
  on \<open>int\<close> has, and a zero divisor raises.
\<close>

definition py_mod :: "int \<Rightarrow> int \<Rightarrow> error + int" where
  "py_mod a b = (if b = 0 then Inl ZeroDivisionError else Inr (a mod b))"

subsection \<open>\<^verbatim>\<open>defaultdict(list)\<close>\<close>

text \<open>
  A dictionary in insertion order. Reading \<^verbatim>\<open>d[k]\<close> on a \<^verbatim>\<open>defaultdict(list)\<close>
  stores an empty list under a key that is missing; \<^verbatim>\<open>d[k].append(v)\<close> does that
  and then appends.
\<close>

fun dd_touch :: "('k \<times> 'v list) list \<Rightarrow> 'k \<Rightarrow> ('k \<times> 'v list) list" where
  "dd_touch [] k = [(k, [])]"
| "dd_touch ((k', vs) # d) k = (if k' = k then (k', vs) # d else (k', vs) # dd_touch d k)"

fun dd_append :: "('k \<times> 'v list) list \<Rightarrow> 'k \<Rightarrow> 'v \<Rightarrow> ('k \<times> 'v list) list" where
  "dd_append [] k v = [(k, [v])]"
| "dd_append ((k', vs) # d) k v =
     (if k' = k then (k', vs @ [v]) # d else (k', vs) # dd_append d k v)"

definition keys :: "('k \<times> 'v) list \<Rightarrow> 'k set" where
  "keys d = fst ` set d"

subsection \<open>Problems, configuration, external calls\<close>

text \<open>
  A problem of the suite: \<open>index\<close> and \<open>dimension\<close> are fixed, the counters and the
  target flag change when the problem is evaluated.
\<close>

record problem_state =
  evaluations :: nat
  evaluations_constraints :: nat
  final_target_hit :: bool

record problem =
  index :: nat
  dimension :: nat
  state :: problem_state

text \<open>The value of the variable \<^verbatim>\<open>fmin\<close>; line 81 sets it to \<^verbatim>\<open>cma.fmin2\<close>.\<close>

datatype solver =
    Scipy_fmin
  | Scipy_fmin_slsqp
  | Cocoex_random_search
  | Random_search
  | Scipy_fmin_cobyla
  | Cma_fmin2

text \<open>The global \<^verbatim>\<open>cocopp\<close>: unbound when the import failed, rebound by \<^verbatim>\<open>cocopp=None\<close>.\<close>

datatype cocopp_value = Cocopp_unbound | Cocopp_module | Cocopp_None | Cocopp_None_string

record config =
  fmin :: solver
  suite_name :: string
  budget_multiplier :: rat
  suite_filter_options :: string
  batches :: int
  current_batch :: int
  output_folder :: string
  cocopp :: cocopp_value

text \<open>
  \<^verbatim>\<open>cocoex.utilities.args_to_dict\<close> turns the \<^verbatim>\<open>name=value\<close> tokens into a dictionary
  and \<^verbatim>\<open>globals().update\<close> assigns its entries, in order.
\<close>

datatype assignment =
    Assign_suite_name string
  | Assign_budget_multiplier rat
  | Assign_suite_filter_options string
  | Assign_batches int
  | Assign_current_batch int
  | Assign_output_folder string
  | Assign_cocopp cocopp_value

fun assign :: "assignment \<Rightarrow> config \<Rightarrow> config" where
  "assign (Assign_suite_name v) C = C\<lparr>suite_name := v\<rparr>"
| "assign (Assign_budget_multiplier v) C = C\<lparr>budget_multiplier := v\<rparr>"
| "assign (Assign_suite_filter_options v) C = C\<lparr>suite_filter_options := v\<rparr>"
| "assign (Assign_batches v) C = C\<lparr>batches := v\<rparr>"
| "assign (Assign_current_batch v) C = C\<lparr>current_batch := v\<rparr>"
| "assign (Assign_output_folder v) C = C\<lparr>output_folder := v\<rparr>"
| "assign (Assign_cocopp v) C = C\<lparr>cocopp := v\<rparr>"

text \<open>The arguments the driver passes to the optimizer, one constructor per branch.\<close>

datatype fmin_call =
    Fmin_maxfun int
  | Slsqp_iter int
  | Random_search_evals "int list" "int list" int
  | Cobyla_maxfun int
  | Fmin2_maxfevals_popsize int int

record ('r, 'w) externals =
  call_problem :: "rat list \<Rightarrow> problem \<Rightarrow> 'w \<Rightarrow> problem_state \<times> 'w"
  fmin_run :: "fmin_call \<Rightarrow> problem \<Rightarrow> 'w \<Rightarrow> (problem_state \<times> 'r) \<times> 'w"
  default_popsize :: "nat \<Rightarrow> int"
  random_rand :: "nat \<Rightarrow> nat \<Rightarrow> 'w \<Rightarrow> rat list list \<times> 'w"
  time_time :: "'w \<Rightarrow> rat \<times> 'w"
  args_to_dict :: "string list \<Rightarrow> error + assignment list"
  fmin_name :: "solver \<Rightarrow> string"
  fmin_module :: "solver \<Rightarrow> string"

text \<open>What the driver does to the outside, in order.\<close>

datatype action =
    Print_message string
  | Print_doc
  | Mkl_set_num_threads nat
  | Set_environ string string
  | Construct_suite string string
  | Construct_observer string string
  | Observe_with nat
  | Evaluate nat "rat list"
  | Invoke nat fmin_call
  | Cocopp_main
  | Webbrowser_open

text \<open>
  The results file: the comment lines and, after them, \<^verbatim>\<open>repr(dict(stoppings))\<close>.
  \<^verbatim>\<open>ast.literal_eval\<close> skips the comments and reads the dictionary back; the
  textual form of a termination record is the optimizer's and stays abstract.
\<close>

record 'r pydict_file =
  path :: string
  comment :: string
  literal :: "(nat \<times> 'r list) list"

definition literal_eval :: "'r pydict_file \<Rightarrow> (nat \<times> 'r list) list" where
  "literal_eval file = literal file"

record ('r, 'w) run_state =
  stoppings :: "(nat \<times> 'r list) list"
  timings :: "(nat \<times> rat list) list"
  results_file :: "'r pydict_file option"
  world :: 'w
  trace :: "action list"

subsection \<open>The remaining budget and the restart loop (lines 136 to 198)\<close>

text \<open>
  The quantity as the specification writes it (no conversion to an integer), to compare
  with what line 136 computes.
\<close>

definition spec_remaining_budget :: "config \<Rightarrow> problem \<Rightarrow> rat" where
  "spec_remaining_budget C problem =
     of_nat (dimension problem) * budget_multiplier C + 1 -
     of_nat (max (evaluations (state problem)) (evaluations_constraints (state problem)))"

definition evalsleft :: "config \<Rightarrow> problem \<Rightarrow> int" where
  "evalsleft C problem =
     py_int (of_nat (dimension problem) * budget_multiplier C + 1 -
             of_nat (max (evaluations (state problem)) (evaluations_constraints (state problem))))"

definition loop_test :: "config \<Rightarrow> problem \<Rightarrow> bool" where
  "loop_test C problem \<longleftrightarrow> 0 < evalsleft C problem \<and> \<not> final_target_hit (state problem)"

text \<open>One call of an external optimizer: the problem's counters and the world change.\<close>

definition run_fmin ::
  "('r, 'w) externals \<Rightarrow> fmin_call \<Rightarrow> problem \<Rightarrow> ('r, 'w) run_state \<Rightarrow>
   'r \<times> problem \<times> ('r, 'w) run_state" where
  "run_fmin E call problem st =
     (case fmin_run E call problem (world st) of
        ((ps, output), w) \<Rightarrow>
          (output, problem\<lparr>state := ps\<rparr>,
           st\<lparr>world := w, trace := trace st @ [Invoke (index problem) call]\<rparr>))"

text \<open>
  \<^verbatim>\<open>random_search\<close> of lines 71 to 74: \<open>int(evals)\<close> rows of uniform numbers, each
  scaled into the box and evaluated.
\<close>

definition scale_row :: "int list \<Rightarrow> int list \<Rightarrow> rat list \<Rightarrow> rat list" where
  "scale_row lbounds ubounds row =
     map (\<lambda>(l, u, r). of_int l + (of_int u - of_int l) * r) (zip lbounds (zip ubounds row))"

fun evaluate_all ::
  "('r, 'w) externals \<Rightarrow> rat list list \<Rightarrow> problem \<Rightarrow> 'w \<Rightarrow> problem \<times> 'w" where
  "evaluate_all E [] f w = (f, w)"
| "evaluate_all E (x # xs) f w =
     (case call_problem E x f w of (ps, w') \<Rightarrow> evaluate_all E xs (f\<lparr>state := ps\<rparr>) w')"

definition random_search ::
  "('r, 'w) externals \<Rightarrow> problem \<Rightarrow> int list \<Rightarrow> int list \<Rightarrow> int \<Rightarrow> 'w \<Rightarrow>
   error + problem \<times> 'w" where
  "random_search E f lbounds ubounds evals w =
     (if evals < 0 then Inl (ValueError ''negative dimensions are not allowed'')
      else case random_rand E (nat evals) (length ubounds) w of
        (rows, w') \<Rightarrow> Inr (evaluate_all E (map (scale_row lbounds ubounds) rows) f w'))"

text \<open>
  The body of the \<^verbatim>\<open>while\<close> loop after \<^verbatim>\<open>irestart += 1\<close>. The result says whether
  the body left the loop by \<^verbatim>\<open>break\<close>. The branches guarded by \<^verbatim>\<open>11 < 3\<close> are dead.
\<close>

definition restart_body ::
  "('r, 'w) externals \<Rightarrow> config \<Rightarrow> int \<Rightarrow> problem \<Rightarrow> ('r, 'w) run_state \<Rightarrow>
   error + bool \<times> problem \<times> ('r, 'w) run_state" where
  "restart_body E C irestart problem st =
     (case fmin C of
        Scipy_fmin \<Rightarrow>
          (case run_fmin E (Fmin_maxfun (evalsleft C problem)) problem st of
             (output, problem', st') \<Rightarrow>
               Inr (False, problem',
                    st'\<lparr>stoppings := dd_append (stoppings st') (index problem) output\<rparr>))
      | Scipy_fmin_slsqp \<Rightarrow>
          (case py_truediv (of_int (evalsleft C problem)) (of_nat (dimension problem)) of
             Inl e \<Rightarrow> Inl e
           | Inr q \<Rightarrow>
               (case run_fmin E (Slsqp_iter (py_int (q + 1))) problem st of
                  (output, problem', st') \<Rightarrow>
                    Inr (False, problem',
                         st'\<lparr>stoppings := dd_append (stoppings st') (index problem) output\<rparr>)))
      | Cocoex_random_search \<Rightarrow>
          (case run_fmin E
                  (Random_search_evals (replicate (dimension problem) (- 5))
                     (replicate (dimension problem) 5) (evalsleft C problem)) problem st of
             (output, problem', st') \<Rightarrow> Inr (False, problem', st'))
      | Random_search \<Rightarrow>
          (case random_search E problem (replicate (dimension problem) (- 5))
                  (replicate (dimension problem) 5) (evalsleft C problem) (world st) of
             Inl e \<Rightarrow> Inl e
           | Inr (problem', w) \<Rightarrow>
               Inr (False, problem',
                    st\<lparr>world := w,
                       trace := trace st @
                         [Invoke (index problem)
                            (Random_search_evals (replicate (dimension problem) (- 5))
                               (replicate (dimension problem) 5) (evalsleft C problem))]\<rparr>))
      | Scipy_fmin_cobyla \<Rightarrow>
          (case run_fmin E (Cobyla_maxfun (evalsleft C problem)) problem st of
             (output, problem', st') \<Rightarrow> Inr (False, problem', st'))
      | Cma_fmin2 \<Rightarrow>
          (let popsize = 2 ^ nat irestart * default_popsize E (dimension problem) in
           case run_fmin E (Fmin2_maxfevals_popsize (evalsleft C problem) popsize) problem st of
             (output, problem', st') \<Rightarrow>
               Inr (9 \<le> irestart, problem',
                    st'\<lparr>stoppings := dd_append (stoppings st') (index problem) output\<rparr>)))"

text \<open>
  The loop, with fuel: one unit per run of the body. \<open>None\<close> says that the fuel did not
  suffice, that is, that the loop runs its body more often than \<open>fuel\<close> times.
\<close>

fun restart_loop ::
  "nat \<Rightarrow> ('r, 'w) externals \<Rightarrow> config \<Rightarrow> int \<Rightarrow> problem \<Rightarrow> ('r, 'w) run_state \<Rightarrow>
   (error + int \<times> problem \<times> ('r, 'w) run_state) option" where
  "restart_loop 0 E C irestart problem st =
     (if loop_test C problem then None else Some (Inr (irestart, problem, st)))"
| "restart_loop (Suc fuel) E C irestart problem st =
     (if loop_test C problem then
        (case restart_body E C (irestart + 1) problem st of
           Inl e \<Rightarrow> Some (Inl e)
         | Inr (stop, problem', st') \<Rightarrow>
             if stop then Some (Inr (irestart + 1, problem', st'))
             else restart_loop fuel E C (irestart + 1) problem' st')
      else Some (Inr (irestart, problem, st)))"

subsection \<open>One problem (lines 129 to 210)\<close>

definition timing_sample :: "rat \<Rightarrow> nat \<Rightarrow> error + rat" where
  "timing_sample elapsed evals =
     (if evals \<noteq> 0 then py_truediv elapsed (of_nat evals) else Inr 0)"

definition file_comment :: "string \<Rightarrow> string" where
  "file_comment folder =
     ''# code to read in these data:'' @ [CHR 0x0A] @
     ''# import ast'' @ [CHR 0x0A] @
     ''# with open('' @ [CHR 0x27] @ folder @ ''_stopping_conditions.pydict'' @ [CHR 0x27] @
     '', '' @ [CHR 0x27] @ ''rt'' @ [CHR 0x27] @ '') as file_:'' @ [CHR 0x0A] @
     ''#     stoppings = ast.literal_eval(file_.read())'' @ [CHR 0x0A]"

definition write_results :: "config \<Rightarrow> ('r, 'w) run_state \<Rightarrow> ('r, 'w) run_state" where
  "write_results C st =
     st\<lparr>results_file :=
          Some \<lparr>path = output_folder C @ ''_stopping_conditions.pydict'',
                comment = file_comment (output_folder C),
                literal = stoppings st\<rparr>\<rparr>"

text \<open>
  The driver's own evaluation at the origin (line 134), the first clock reading, the
  restart loop, the timing sample and the results file.
\<close>

definition before_restarts ::
  "('r, 'w) externals \<Rightarrow> problem \<Rightarrow> ('r, 'w) run_state \<Rightarrow>
   rat \<times> problem \<times> ('r, 'w) run_state" where
  "before_restarts E problem st =
     (case call_problem E (replicate (dimension problem) 0) problem (world st) of
        (ps, w) \<Rightarrow>
          (case time_time E w of
             (time1, w') \<Rightarrow>
               (time1, problem\<lparr>state := ps\<rparr>,
                st\<lparr>timings := dd_touch (timings st) (dimension problem),
                   world := w',
                   trace := trace st @
                     [Observe_with (index problem),
                      Evaluate (index problem) (replicate (dimension problem) 0)]\<rparr>)))"

definition after_restarts ::
  "('r, 'w) externals \<Rightarrow> config \<Rightarrow> rat \<Rightarrow> problem \<Rightarrow> ('r, 'w) run_state \<Rightarrow>
   error + ('r, 'w) run_state" where
  "after_restarts E C time1 problem st =
     (case time_time E (world st) of
        (time2, w) \<Rightarrow>
          (case timing_sample (time2 - time1) (evaluations (state problem)) of
             Inl e \<Rightarrow> Inl e
           | Inr sample \<Rightarrow>
               Inr (write_results C
                      (st\<lparr>timings := dd_append (timings st) (dimension problem) sample,
                          world := w\<rparr>))))"

definition process_problem ::
  "nat \<Rightarrow> ('r, 'w) externals \<Rightarrow> config \<Rightarrow> problem \<Rightarrow> ('r, 'w) run_state \<Rightarrow>
   (error + ('r, 'w) run_state) option" where
  "process_problem fuel E C problem st =
     (case before_restarts E problem st of
        (time1, problem1, st1) \<Rightarrow>
          (case restart_loop fuel E C (- 1) problem1 st1 of
             None \<Rightarrow> None
           | Some (Inl e) \<Rightarrow> Some (Inl e)
           | Some (Inr (irestart, problem2, st2)) \<Rightarrow>
               Some (after_restarts E C time1 problem2 st2)))"

subsection \<open>The loop over the suite (lines 124 to 126)\<close>

definition skipped :: "config \<Rightarrow> nat \<Rightarrow> error + bool" where
  "skipped C batch_counter =
     (case py_mod (int batch_counter) (batches C) of
        Inl e \<Rightarrow> Inl e
      | Inr a \<Rightarrow>
          (case py_mod (current_batch C) (batches C) of
             Inl e \<Rightarrow> Inl e
           | Inr b \<Rightarrow> Inr (a \<noteq> b)))"

fun main_loop ::
  "nat \<Rightarrow> ('r, 'w) externals \<Rightarrow> config \<Rightarrow> (nat \<times> problem) list \<Rightarrow> ('r, 'w) run_state \<Rightarrow>
   (error + ('r, 'w) run_state) option" where
  "main_loop fuel E C [] st = Some (Inr st)"
| "main_loop fuel E C ((batch_counter, problem) # rest) st =
     (case skipped C batch_counter of
        Inl e \<Rightarrow> Some (Inl e)
      | Inr True \<Rightarrow> main_loop fuel E C rest st
      | Inr False \<Rightarrow>
          (case process_problem fuel E C problem st of
             None \<Rightarrow> None
           | Some (Inl e) \<Rightarrow> Some (Inl e)
           | Some (Inr st') \<Rightarrow> main_loop fuel E C rest st'))"

subsection \<open>Module start: imports, configuration, \<^verbatim>\<open>__main__\<close> block (lines 37 to 112)\<close>

record environment =
  platform_lower :: string
  mkl_installed :: bool
  cocopp_installed :: bool
  cma_installed :: bool
  run_as_main :: bool
  argv :: "string list"

fun str_nat :: "nat \<Rightarrow> string" where
  "str_nat n =
     (if n < 10 then [char_of (48 + n)] else str_nat (n div 10) @ [char_of (48 + n mod 10)])"

text \<open>The formats \<^verbatim>\<open>%d\<close> and \<^verbatim>\<open>%03d\<close> on an integer.\<close>

definition format_d :: "int \<Rightarrow> string" where
  "format_d i = (if i < 0 then ''-'' @ str_nat (nat (- i)) else str_nat (nat i))"

definition zfill :: "nat \<Rightarrow> string \<Rightarrow> string" where
  "zfill width s = replicate (width - length s) (CHR ''0'') @ s"

definition format_03d :: "int \<Rightarrow> string" where
  "format_03d i =
     (if i < 0 then ''-'' @ zfill 2 (str_nat (nat (- i))) else zfill 3 (str_nat (nat i)))"

text \<open>
  \<^verbatim>\<open>set_num_threads\<close>: a missing \<^verbatim>\<open>mkl\<close> is an \<^verbatim>\<open>ImportError\<close> that is caught and
  answered with a message.
\<close>

definition set_num_threads :: "environment \<Rightarrow> nat \<Rightarrow> bool \<Rightarrow> action list" where
  "set_num_threads env nt disp =
     (if mkl_installed env then [Mkl_set_num_threads nt]
      else if disp then [Print_message ''mkl is not installed''] else []) @
     map (\<lambda>name. Set_environ name (str_nat nt))
       [''OPENBLAS_NUM_THREADS'', ''NUMEXPR_NUM_THREADS'', ''OMP_NUM_THREADS'',
        ''MKL_NUM_THREADS''] @
     (if disp then [Print_message (''setting mkl threads num to '' @ str_nat nt)] else [])"

definition module_start :: "environment \<Rightarrow> action list" where
  "module_start env =
     (if platform_lower env \<notin> set [''darwin'', ''windows''] then set_num_threads env 1 True
      else [])"

text \<open>
  Lines 63 to 92. \<^verbatim>\<open>try: import cocopp\<close> and \<^verbatim>\<open>try: import cma\<close> swallow a failed
  import and leave the name unbound; line 81 then reads \<^verbatim>\<open>cma.fmin2\<close>.
\<close>

definition module_globals :: "environment \<Rightarrow> error + config" where
  "module_globals env =
     (if \<not> cma_installed env then Inl (NameError ''cma'')
      else Inr \<lparr>fmin = Cma_fmin2, suite_name = ''bbob'', budget_multiplier = 2 * 100000 + 0,
                suite_filter_options = [], batches = 1, current_batch = 1,
                output_folder = [],
                cocopp = (if cocopp_installed env then Cocopp_module else Cocopp_unbound)\<rparr>)"

definition help_requested :: "string list \<Rightarrow> bool" where
  "help_requested args \<longleftrightarrow>
     1 < length args \<and> args ! 1 \<in> set [''-h'', ''help'', ''-help'', ''--help'']"

text \<open>Lines 104 to 108.\<close>

definition extend_output_folder :: "('r, 'w) externals \<Rightarrow> config \<Rightarrow> config" where
  "extend_output_folder E C =
     (let folder = output_folder C @ fmin_name E (fmin C) @ ''_of_'' @ fmin_module E (fmin C) @
                   ''_'' @ format_d (py_int (budget_multiplier C)) @ ''D_on_'' @ suite_name C
      in C\<lparr>output_folder :=
             (if 1 < batches C
              then folder @ ''_batch'' @ format_03d (current_batch C) @ ''of'' @
                   format_d (batches C)
              else folder)\<rparr>)"

text \<open>
  The module up to the construction of the suite: the result is the configuration or the
  error that ends the run, with what was done until then.
\<close>

definition startup ::
  "environment \<Rightarrow> ('r, 'w) externals \<Rightarrow> (error + config) \<times> action list" where
  "startup env E =
     (case module_globals env of
        Inl e \<Rightarrow> (Inl e, module_start env)
      | Inr C \<Rightarrow>
          if run_as_main env then
            if help_requested (argv env)
            then (Inl (ValueError ''printed help and aborted''), module_start env @ [Print_doc])
            else
              (case args_to_dict E (drop 1 (argv env)) of
                 Inl e \<Rightarrow> (Inl e, module_start env)
               | Inr input_params \<Rightarrow>
                   (Inr (extend_output_folder E (fold assign input_params C)),
                    module_start env))
          else (Inr (extend_output_folder E C), module_start env))"

definition prepare :: "config \<Rightarrow> 'w \<Rightarrow> ('r, 'w) run_state" where
  "prepare C w =
     \<lparr>stoppings = [], timings = [], results_file = None, world = w,
      trace = [Construct_suite (suite_name C) (suite_filter_options C),
               Construct_observer (suite_name C) (''result_folder: '' @ output_folder C)]\<rparr>"

text \<open>
  Lines 213 to 233: the summary reads \<^verbatim>\<open>sorted(timings)[-1]\<close>, which fails on an empty
  dictionary; post-processing runs in the single-batch case when \<^verbatim>\<open>cocopp\<close> is bound
  to something other than \<^verbatim>\<open>None\<close> or the string \<^verbatim>\<open>None\<close>.
\<close>

definition finish :: "config \<Rightarrow> ('r, 'w) run_state \<Rightarrow> error + ('r, 'w) run_state" where
  "finish C st =
     (if timings st = [] then Inl IndexError
      else if batches C = 1 \<and> cocopp C \<noteq> Cocopp_unbound \<and>
              cocopp C \<notin> set [Cocopp_None, Cocopp_None_string]
      then Inr (st\<lparr>trace := trace st @ [Cocopp_main, Webbrowser_open]\<rparr>)
      else Inr st)"

text \<open>
  The whole script on a suite. The result pairs what module start did with how the run
  ended; \<open>None\<close> says that a restart loop did not end within the fuel.
\<close>

definition script ::
  "nat \<Rightarrow> environment \<Rightarrow> ('r, 'w) externals \<Rightarrow> problem list \<Rightarrow> 'w \<Rightarrow>
   (action list \<times> (error + ('r, 'w) run_state)) option" where
  "script fuel env E suite w =
     (case startup env E of
        (Inl e, t) \<Rightarrow> Some (t, Inl e)
      | (Inr C, t) \<Rightarrow>
          (case main_loop fuel E C (enumerate 0 suite) (prepare C w) of
             None \<Rightarrow> None
           | Some (Inl e) \<Rightarrow> Some (t, Inl e)
           | Some (Inr st) \<Rightarrow> Some (t, finish C st)))"


subsection \<open>Reading a trace\<close>

text \<open>
  The problems handed to the observer, the population sizes asked for, and the problems
  on which an optimizer ran through a branch that appends to \<open>stoppings\<close>.
\<close>

fun observed :: "action list \<Rightarrow> nat list" where
  "observed [] = []"
| "observed (Observe_with i # t) = i # observed t"
| "observed (a # t) = observed t"

fun popsizes :: "action list \<Rightarrow> int list" where
  "popsizes [] = []"
| "popsizes (Invoke i (Fmin2_maxfevals_popsize m n) # t) = n # popsizes t"
| "popsizes (a # t) = popsizes t"

fun records :: "fmin_call \<Rightarrow> bool" where
  "records (Fmin_maxfun m) = True"
| "records (Slsqp_iter m) = True"
| "records (Random_search_evals l u m) = False"
| "records (Cobyla_maxfun m) = False"
| "records (Fmin2_maxfevals_popsize m n) = True"

fun recorded :: "action list \<Rightarrow> nat set" where
  "recorded [] = {}"
| "recorded (Invoke i call # t) = (if records call then insert i (recorded t) else recorded t)"
| "recorded (a # t) = recorded t"

definition batch_problems :: "config \<Rightarrow> (nat \<times> problem) list \<Rightarrow> problem list" where
  "batch_problems C ps = map snd (filter (\<lambda>(c, p). skipped C c = Inr False) ps)"

text \<open>Of a finished loop over the suite: the keys of the results file read back, and
  the problems that were processed.\<close>

definition file_keys :: "(error + ('r, 'w) run_state) option \<Rightarrow> nat set option" where
  "file_keys r =
     (case r of
        Some (Inr st) \<Rightarrow> map_option (\<lambda>file. keys (literal_eval file)) (results_file st)
      | _ \<Rightarrow> None)"

definition processed :: "(error + ('r, 'w) run_state) option \<Rightarrow> nat list option" where
  "processed r = (case r of Some (Inr st) \<Rightarrow> Some (observed (trace st)) | _ \<Rightarrow> None)"

subsection \<open>Concrete inputs\<close>

text \<open>
  A stand-in for the external libraries, to run the driver on: every evaluation counts
  one, the optimizer spends \<open>step\<close> evaluations per call and never hits the target, the
  clock advances with every call, and \<^verbatim>\<open>args_to_dict\<close> accepts tokens with an equals sign
  (without assigning anything) and rejects the others.
\<close>

definition example_externals :: "nat \<Rightarrow> (string, nat) externals" where
  "example_externals step =
     \<lparr>call_problem =
        (\<lambda>x p w. ((state p)\<lparr>evaluations := evaluations (state p) + 1\<rparr>, w + 1)),
      fmin_run =
        (\<lambda>call p w.
           (((state p)\<lparr>evaluations := evaluations (state p) + step\<rparr>, ''maxfevals''), w + 1)),
      default_popsize = (\<lambda>n. 6),
      random_rand = (\<lambda>m n w. (replicate m (replicate n (1 / 2)), w + 1)),
      time_time = (\<lambda>w. (of_nat w, w + 1)),
      args_to_dict =
        (\<lambda>args. if list_all (\<lambda>a. CHR ''='' \<in> set a) args then Inr []
                 else Inl (ValueError ''not enough values to unpack'')),
      fmin_name = (\<lambda>s. ''fmin''),
      fmin_module = (\<lambda>s. ''module'')\<rparr>"

definition example_config :: "solver \<Rightarrow> rat \<Rightarrow> config" where
  "example_config s m =
     \<lparr>fmin = s, suite_name = ''bbob'', budget_multiplier = m, suite_filter_options = [],
      batches = 1, current_batch = 1, output_folder = ''exdata'', cocopp = Cocopp_module\<rparr>"

definition example_problem :: "nat \<Rightarrow> nat \<Rightarrow> nat \<Rightarrow> problem" where
  "example_problem i d e =
     \<lparr>index = i, dimension = d,
      state = \<lparr>evaluations = e, evaluations_constraints = 0, final_target_hit = False\<rparr>\<rparr>"

definition example_environment :: "string list \<Rightarrow> environment" where
  "example_environment args =
     \<lparr>platform_lower = ''linux'', mkl_installed = False, cocopp_installed = False,
      cma_installed = True, run_as_main = True,
      argv = ''example_experiment2_lq_cma.py'' # args\<rparr>"

section \<open>Properties\<close>

subsection \<open>Numbers and dictionaries\<close>


lemma py_int_of_int [simp]: "py_int (of_int m) = m"
  by (simp add: py_int_def)


lemma skipped_eq:
  "skipped C c = (if batches C = 0 then Inl ZeroDivisionError
                  else Inr (int c mod batches C \<noteq> current_batch C mod batches C))"
  by (simp add: skipped_def py_mod_def)

lemma timing_sample_eq:
  "timing_sample elapsed evals = Inr (if evals = 0 then 0 else elapsed / of_nat evals)"
  by (simp add: timing_sample_def py_truediv_def)

lemma map_of_dd_append:
  "map_of (dd_append d k v) k = Some ((case map_of d k of None \<Rightarrow> [] | Some vs \<Rightarrow> vs) @ [v])"
  by (induction d k v rule: dd_append.induct) auto

lemma map_of_dd_append_other:
  "k' \<noteq> k \<Longrightarrow> map_of (dd_append d k v) k' = map_of d k'"
  by (induction d k v rule: dd_append.induct) auto

lemma keys_dd_append [simp]: "keys (dd_append d k v) = insert k (keys d)"
  by (induction d k v rule: dd_append.induct) (auto simp: keys_def)

lemma keys_dd_touch [simp]: "keys (dd_touch d k) = insert k (keys d)"
  by (induction d k rule: dd_touch.induct) (auto simp: keys_def)

lemma batch_unique:
  assumes "1 \<le> n"
  shows "\<exists>!i. 1 \<le> i \<and> i \<le> n \<and> int c mod n = i mod n"
proof -
  let ?r = "int c mod n"
  have r: "0 \<le> ?r" "?r < n" using assms by (simp_all add: pos_mod_bound)
  define i0 where "i0 = (if ?r = 0 then n else ?r)"
  have i0: "1 \<le> i0" "i0 \<le> n" "i0 mod n = ?r"
  proof -
    have e: "i0 = n \<or> (i0 = ?r \<and> ?r \<noteq> 0)" by (simp add: i0_def)
    show "1 \<le> i0" using e r assms by linarith
    show "i0 \<le> n" using e r assms by linarith
    show "i0 mod n = ?r" using r by (cases "?r = 0") (simp_all add: i0_def)
  qed
  show ?thesis
  proof (rule ex1I [of _ i0])
    show "1 \<le> i0 \<and> i0 \<le> n \<and> int c mod n = i0 mod n" using i0 by simp
  next
    fix i assume h: "1 \<le> i \<and> i \<le> n \<and> int c mod n = i mod n"
    show "i = i0"
    proof (cases "i = n")
      case True
      then have "?r = 0" using h by simp
      then show ?thesis using True by (simp add: i0_def)
    next
      case False
      then have "i mod n = i" using h by simp
      then have "?r = i" using h by simp
      then show ?thesis using h by (auto simp: i0_def)
    qed
  qed
qed

lemma py_int_mono: "x \<le> y \<Longrightarrow> py_int x \<le> py_int y"
proof -
  assume xy: "x \<le> y"
  have nonneg: "0 \<le> \<lfloor>z\<rfloor>" if "\<not> z < 0" for z :: rat using that by simp
  have pos: "0 \<le> \<lfloor>- z\<rfloor>" if "z < 0" for z :: rat using that by simp
  show ?thesis
  proof (cases "x < 0")
    case True
    show ?thesis
    proof (cases "y < 0")
      case True
      have "\<lfloor>- y\<rfloor> \<le> \<lfloor>- x\<rfloor>" using xy by (intro floor_mono) simp
      with True \<open>x < 0\<close> show ?thesis by (simp add: py_int_def)
    next
      case False
      from pos [OF \<open>x < 0\<close>] nonneg [OF False] have "- \<lfloor>- x\<rfloor> \<le> \<lfloor>y\<rfloor>" by linarith
      with \<open>x < 0\<close> False show ?thesis by (simp add: py_int_def)
    qed
  next
    case False
    then have "\<not> y < 0" using xy by simp
    with False floor_mono [OF xy] show ?thesis by (simp add: py_int_def)
  qed
qed

subsection \<open>The restart loop\<close>

lemma evaluate_all_fixed:
  "evaluate_all E xs f w = (f', w') \<Longrightarrow> index f' = index f \<and> dimension f' = dimension f"
  by (induction xs arbitrary: f w) (auto split: prod.splits)

lemma run_fmin_effect:
  assumes "run_fmin E call p st = (out, p', st')"
  shows "index p' = index p \<and> dimension p' = dimension p \<and>
         timings st' = timings st \<and> results_file st' = results_file st \<and>
         stoppings st' = stoppings st \<and> trace st' = trace st @ [Invoke (index p) call]"
  using assms by (auto simp: run_fmin_def split: prod.splits)

lemma restart_body_effect:
  assumes "restart_body E C i p st = Inr (stop, p', st')"
  shows "index p' = index p \<and> dimension p' = dimension p \<and>
         timings st' = timings st \<and> results_file st' = results_file st \<and>
         (\<exists>call. trace st' = trace st @ [Invoke (index p) call] \<and>
            keys (stoppings st') =
              (if records call then insert (index p) (keys (stoppings st))
               else keys (stoppings st)))"
proof (cases "fmin C")
  case Scipy_fmin
  obtain out p1 st1 where r: "run_fmin E (Fmin_maxfun (evalsleft C p)) p st = (out, p1, st1)"
    by (cases "run_fmin E (Fmin_maxfun (evalsleft C p)) p st") auto
  from assms Scipy_fmin r run_fmin_effect [OF r] show ?thesis
    by (intro conjI exI [of _ "Fmin_maxfun (evalsleft C p)"])
       (auto simp: restart_body_def)
next
  case Scipy_fmin_slsqp
  from assms Scipy_fmin_slsqp obtain q where
    q: "py_truediv (of_int (evalsleft C p)) (of_nat (dimension p)) = Inr q"
    by (auto simp: restart_body_def split: sum.splits)
  obtain out p1 st1 where r: "run_fmin E (Slsqp_iter (py_int (q + 1))) p st = (out, p1, st1)"
    by (cases "run_fmin E (Slsqp_iter (py_int (q + 1))) p st") auto
  from assms Scipy_fmin_slsqp q r run_fmin_effect [OF r] show ?thesis
    by (intro conjI exI [of _ "Slsqp_iter (py_int (q + 1))"])
       (auto simp: restart_body_def)
next
  case Cocoex_random_search
  let ?call = "Random_search_evals (replicate (dimension p) (- 5))
                 (replicate (dimension p) 5) (evalsleft C p)"
  obtain out p1 st1 where r: "run_fmin E ?call p st = (out, p1, st1)"
    by (cases "run_fmin E ?call p st") auto
  from assms Cocoex_random_search r run_fmin_effect [OF r] show ?thesis
    by (intro conjI exI [of _ ?call]) (auto simp: restart_body_def)
next
  case Random_search
  let ?call = "Random_search_evals (replicate (dimension p) (- 5))
                 (replicate (dimension p) 5) (evalsleft C p)"
  from assms Random_search show ?thesis
    by (intro conjI exI [of _ ?call])
       (auto simp: restart_body_def random_search_def
          split: prod.splits sum.splits if_splits dest: evaluate_all_fixed)
next
  case Scipy_fmin_cobyla
  obtain out p1 st1 where r: "run_fmin E (Cobyla_maxfun (evalsleft C p)) p st = (out, p1, st1)"
    by (cases "run_fmin E (Cobyla_maxfun (evalsleft C p)) p st") auto
  from assms Scipy_fmin_cobyla r run_fmin_effect [OF r] show ?thesis
    by (intro conjI exI [of _ "Cobyla_maxfun (evalsleft C p)"])
       (auto simp: restart_body_def)
next
  case Cma_fmin2
  let ?call = "Fmin2_maxfevals_popsize (evalsleft C p)
                 (2 ^ nat i * default_popsize E (dimension p))"
  obtain out p1 st1 where r: "run_fmin E ?call p st = (out, p1, st1)"
    by (cases "run_fmin E ?call p st") auto
  from assms Cma_fmin2 r run_fmin_effect [OF r] show ?thesis
    by (intro conjI exI [of _ ?call]) (auto simp: restart_body_def Let_def)
qed

lemma restart_body_cma:
  assumes "fmin C = Cma_fmin2"
  shows "\<exists>p' st'. restart_body E C i p st = Inr (9 \<le> i, p', st') \<and>
           trace st' = trace st @
             [Invoke (index p)
                (Fmin2_maxfevals_popsize (evalsleft C p)
                   (2 ^ nat i * default_popsize E (dimension p)))]"
  using assms by (auto simp: restart_body_def run_fmin_def Let_def split: prod.splits)

lemma observed_append [simp]: "observed (t @ u) = observed t @ observed u"
  by (induction t rule: observed.induct) auto

lemma popsizes_append [simp]: "popsizes (t @ u) = popsizes t @ popsizes u"
  by (induction t rule: popsizes.induct) auto

lemma recorded_append [simp]: "recorded (t @ u) = recorded t \<union> recorded u"
  by (induction t rule: recorded.induct) auto

lemma observed_invokes [simp]: "observed (map (Invoke k) calls) = []"
  by (induction calls) auto

lemma recorded_invokes [simp]:
  "recorded (map (Invoke k) calls) = (if \<exists>c\<in>set calls. records c then {k} else {})"
  by (induction calls) auto

lemma restart_loop_effect:
  assumes "restart_loop fuel E C i p st = Some (Inr (i', p', st'))"
  shows "index p' = index p \<and> dimension p' = dimension p \<and>
         timings st' = timings st \<and> results_file st' = results_file st \<and> i \<le> i' \<and>
         (\<exists>calls. trace st' = trace st @ map (Invoke (index p)) calls \<and>
            length calls = nat (i' - i) \<and>
            keys (stoppings st') =
              keys (stoppings st) \<union> (if \<exists>c\<in>set calls. records c then {index p} else {}))"
  using assms
proof (induction fuel arbitrary: i p st)
  case 0
  then have "i' = i" "p' = p" "st' = st" by (auto split: if_splits)
  then show ?case by (auto intro: exI [of _ "[]"])
next
  case (Suc fuel)
  show ?case
  proof (cases "loop_test C p")
    case False
    with Suc.prems have "i' = i" "p' = p" "st' = st" by auto
    then show ?thesis by (auto intro: exI [of _ "[]"])
  next
    case True
    with Suc.prems obtain stop p1 st1 where
      b: "restart_body E C (i + 1) p st = Inr (stop, p1, st1)"
      by (auto split: sum.splits)
    from restart_body_effect [OF b] obtain call where
      e: "index p1 = index p" "dimension p1 = dimension p" "timings st1 = timings st"
         "results_file st1 = results_file st"
         "trace st1 = trace st @ [Invoke (index p) call]"
         "keys (stoppings st1) =
            (if records call then insert (index p) (keys (stoppings st))
             else keys (stoppings st))"
      by blast
    show ?thesis
    proof (cases stop)
      case True
      with Suc.prems \<open>loop_test C p\<close> b have "i' = i + 1" "p' = p1" "st' = st1" by auto
      with e show ?thesis by (auto intro!: exI [of _ "[call]"])
    next
      case False
      with Suc.prems \<open>loop_test C p\<close> b
      have "restart_loop fuel E C (i + 1) p1 st1 = Some (Inr (i', p', st'))" by auto
      from Suc.IH [OF this] obtain calls where
        r: "index p' = index p1" "dimension p' = dimension p1" "timings st' = timings st1"
           "results_file st' = results_file st1" "i + 1 \<le> i'"
           "trace st' = trace st1 @ map (Invoke (index p1)) calls"
           "length calls = nat (i' - (i + 1))"
           "keys (stoppings st') =
              keys (stoppings st1) \<union> (if \<exists>c\<in>set calls. records c then {index p1} else {})"
        by blast
      have "trace st' = trace st @ map (Invoke (index p)) (call # calls)"
        using e r by simp
      moreover have "length (call # calls) = nat (i' - i)"
        using r by simp
      moreover have "keys (stoppings st') =
          keys (stoppings st) \<union>
            (if \<exists>c\<in>set (call # calls). records c then {index p} else {})"
        using e r by auto
      ultimately show ?thesis using e r by (intro conjI exI [of _ "call # calls"]) simp_all
    qed
  qed
qed


lemma restart_loop_cma_ends:
  assumes "fmin C = Cma_fmin2" "i \<le> 8" "nat (9 - i) \<le> fuel"
  shows "\<exists>i' p' st'. restart_loop fuel E C i p st = Some (Inr (i', p', st')) \<and> i' \<le> 9"
  using assms(2,3)
proof (induction fuel arbitrary: i p st)
  case 0
  then show ?case by simp
next
  case (Suc fuel)
  from restart_body_cma [OF assms(1), of E "i + 1" p st] obtain p1 st1 where
    b: "restart_body E C (i + 1) p st = Inr (9 \<le> i + 1, p1, st1)" by blast
  show ?case
  proof (cases "loop_test C p")
    case False
    then show ?thesis using Suc.prems by simp
  next
    case True
    show ?thesis
    proof (cases "9 \<le> i + 1")
      case True
      with b \<open>loop_test C p\<close> Suc.prems show ?thesis by simp
    next
      case False
      then have "i + 1 \<le> 8" "nat (9 - (i + 1)) \<le> fuel" using Suc.prems by simp_all
      from Suc.IH [OF this] b \<open>loop_test C p\<close> False show ?thesis by simp
    qed
  qed
qed

lemma restart_loop_cma_popsizes:
  assumes "fmin C = Cma_fmin2"
  shows "restart_loop fuel E C i p st = Some (Inr (i', p', st')) \<Longrightarrow> - 1 \<le> i \<Longrightarrow>
         popsizes (trace st') =
           popsizes (trace st) @
             map (\<lambda>k. 2 ^ k * default_popsize E (dimension p)) [nat (i + 1)..<nat (i' + 1)]"
proof (induction fuel arbitrary: i p st)
  case 0
  then show ?case by (auto split: if_splits)
next
  case (Suc fuel)
  from restart_body_cma [OF assms(1), of E "i + 1" p st] obtain p1 st1 where
    b: "restart_body E C (i + 1) p st = Inr (9 \<le> i + 1, p1, st1)"
    and t: "trace st1 = trace st @
             [Invoke (index p)
                (Fmin2_maxfevals_popsize (evalsleft C p)
                   (2 ^ nat (i + 1) * default_popsize E (dimension p)))]"
    by blast
  from restart_body_effect [OF b] have d: "dimension p1 = dimension p" by simp
  show ?case
  proof (cases "loop_test C p")
    case False
    then show ?thesis using Suc.prems by auto
  next
    case True
    show ?thesis
    proof (cases "9 \<le> i + 1")
      case True
      with b \<open>loop_test C p\<close> Suc.prems have "i' = i + 1" "st' = st1" by auto
      have "nat (i' + 1) = Suc (nat (i + 1))"
        using \<open>i' = i + 1\<close> Suc.prems(2) by simp
      then have "[nat (i + 1)..<nat (i' + 1)] = [nat (i + 1)]"
        by simp
      with t \<open>st' = st1\<close> show ?thesis by simp
    next
      case False
      with b \<open>loop_test C p\<close> Suc.prems
      have r: "restart_loop fuel E C (i + 1) p1 st1 = Some (Inr (i', p', st'))" by auto
      from restart_loop_effect [OF r] have le: "i + 1 \<le> i'" by simp
      have lt: "nat (i + 1) < nat (i' + 1)" using le Suc.prems(2) by simp
      have "nat (i + 1 + 1) = Suc (nat (i + 1))" using Suc.prems(2) by simp
      with lt have u: "[nat (i + 1)..<nat (i' + 1)] =
                    nat (i + 1) # [nat (i + 1 + 1)..<nat (i' + 1)]"
        by (simp add: upt_conv_Cons)
      have "- 1 \<le> i + 1" using Suc.prems(2) by simp
      from Suc.IH [OF r this] have
        "popsizes (trace st') = popsizes (trace st1) @
           map (\<lambda>k. 2 ^ k * default_popsize E (dimension p1)) [nat (i + 1 + 1)..<nat (i' + 1)]" .
      then show ?thesis unfolding u t d by simp
    qed
  qed
qed

lemma restart_loop_entered:
  assumes "restart_loop fuel E C i p st = Some (Inr (i', p', st'))"
  shows "i' = i \<longleftrightarrow> \<not> loop_test C p"
proof (cases "loop_test C p")
  case False
  with assms show ?thesis by (cases fuel) auto
next
  case True
  then obtain n where n: "fuel = Suc n" using assms by (cases fuel) auto
  from assms True n obtain stop p1 st1 where
    b: "restart_body E C (i + 1) p st = Inr (stop, p1, st1)"
    by (auto split: sum.splits)
  show ?thesis
  proof (cases stop)
    case True
    with assms \<open>loop_test C p\<close> n b show ?thesis by auto
  next
    case False
    with assms \<open>loop_test C p\<close> n b
    have "restart_loop n E C (i + 1) p1 st1 = Some (Inr (i', p', st'))" by auto
    from restart_loop_effect [OF this] \<open>loop_test C p\<close> show ?thesis by auto
  qed
qed


subsection \<open>One problem and the loop over the suite\<close>

lemma after_restarts_eq:
  "after_restarts E C time1 p st =
     Inr (write_results C
            (st\<lparr>timings := dd_append (timings st) (dimension p)
                   (if evaluations (state p) = 0 then 0
                    else (fst (time_time E (world st)) - time1) / of_nat (evaluations (state p))),
                world := snd (time_time E (world st))\<rparr>))"
  by (simp add: after_restarts_def timing_sample_eq split: prod.splits)

lemma process_problem_effect:
  assumes "process_problem fuel E C p st = Some (Inr st')"
  shows "\<exists>calls.
           trace st' = trace st @ Observe_with (index p) #
             Evaluate (index p) (replicate (dimension p) 0) # map (Invoke (index p)) calls \<and>
           keys (stoppings st') =
             keys (stoppings st) \<union> (if \<exists>c\<in>set calls. records c then {index p} else {}) \<and>
           (calls = [] \<longleftrightarrow> \<not> loop_test C (fst (snd (before_restarts E p st)))) \<and>
           (\<exists>file. results_file st' = Some file \<and> literal file = stoppings st') \<and>
           timings st' \<noteq> []"
proof -
  obtain time1 p1 st1 where b: "before_restarts E p st = (time1, p1, st1)"
    by (cases "before_restarts E p st") auto
  have b1: "index p1 = index p" "dimension p1 = dimension p" "stoppings st1 = stoppings st"
    "trace st1 = trace st @ [Observe_with (index p),
        Evaluate (index p) (replicate (dimension p) 0)]"
    using b by (auto simp: before_restarts_def split: prod.splits)
  from assms b obtain i' p2 st2 where
    l: "restart_loop fuel E C (- 1) p1 st1 = Some (Inr (i', p2, st2))"
    and a: "after_restarts E C time1 p2 st2 = Inr st'"
    by (auto simp: process_problem_def split: option.splits sum.splits)
  from restart_loop_effect [OF l] obtain calls where
    c: "trace st2 = trace st1 @ map (Invoke (index p1)) calls"
       "length calls = nat (i' - (- 1))" "- 1 \<le> i'"
       "keys (stoppings st2) =
          keys (stoppings st1) \<union> (if \<exists>c\<in>set calls. records c then {index p1} else {})"
    by blast
  from restart_loop_entered [OF l] c(2,3) have e: "calls = [] \<longleftrightarrow> \<not> loop_test C p1"
    by auto
  from a have s: "trace st' = trace st2" "stoppings st' = stoppings st2"
    "\<exists>file. results_file st' = Some file \<and> literal file = stoppings st'"
    "timings st' = dd_append (timings st2) (dimension p2)
       (if evaluations (state p2) = 0 then 0
        else (fst (time_time E (world st2)) - time1) / of_nat (evaluations (state p2)))"
    by (auto simp: after_restarts_eq write_results_def)
  have "timings st' \<noteq> []"
    unfolding s(4) by (cases "timings st2") (auto split: if_splits)
  with b b1 c e s show ?thesis
    by (intro exI [of _ calls]) simp
qed

lemma main_loop_effect:
  assumes "main_loop fuel E C ps st = Some (Inr st')"
    and "keys (stoppings st) = recorded (trace st)"
    and "\<forall>file. results_file st = Some file \<longrightarrow> literal file = stoppings st"
  shows "observed (trace st') = observed (trace st) @ map index (batch_problems C ps) \<and>
         keys (stoppings st') = recorded (trace st') \<and>
         (\<forall>file. results_file st' = Some file \<longrightarrow> literal file = stoppings st') \<and>
         (batch_problems C ps \<noteq> [] \<or> (results_file st \<noteq> None \<and> timings st \<noteq> []) \<longrightarrow>
            results_file st' \<noteq> None \<and> timings st' \<noteq> [])"
  using assms
proof (induction ps arbitrary: st)
  case Nil
  then show ?case by (simp add: batch_problems_def)
next
  case (Cons cp ps)
  obtain c p where cp: "cp = (c, p)" by (cases cp)
  from Cons.prems(1) cp obtain sk where sk: "skipped C c = Inr sk"
    by (auto split: sum.splits)
  show ?case
  proof (cases sk)
    case True
    with Cons.prems cp sk have "main_loop fuel E C ps st = Some (Inr st')" by simp
    from Cons.IH [OF this Cons.prems(2,3)] True sk cp show ?thesis
      by (simp add: batch_problems_def)
  next
    case False
    with Cons.prems(1) cp sk obtain st1 where
      p: "process_problem fuel E C p st = Some (Inr st1)"
      and m: "main_loop fuel E C ps st1 = Some (Inr st')"
      by (auto split: option.splits sum.splits)
    from process_problem_effect [OF p] obtain calls fl where
      e: "trace st1 = trace st @ Observe_with (index p) #
            Evaluate (index p) (replicate (dimension p) 0) # map (Invoke (index p)) calls"
         "keys (stoppings st1) =
            keys (stoppings st) \<union> (if \<exists>c\<in>set calls. records c then {index p} else {})"
         "results_file st1 = Some fl" "literal fl = stoppings st1" "timings st1 \<noteq> []"
      by blast
    have k: "keys (stoppings st1) = recorded (trace st1)"
      using e(1,2) Cons.prems(2) by simp
    have f: "\<forall>file. results_file st1 = Some file \<longrightarrow> literal file = stoppings st1"
      using e(3,4) by simp
    from Cons.IH [OF m k f] have
      r: "observed (trace st') = observed (trace st1) @ map index (batch_problems C ps)"
         "keys (stoppings st') = recorded (trace st')"
         "\<forall>file. results_file st' = Some file \<longrightarrow> literal file = stoppings st'"
         "results_file st' \<noteq> None \<and> timings st' \<noteq> []"
      using e(3,5) by simp_all
    have o: "observed (trace st') = observed (trace st) @ map index (batch_problems C (cp # ps))"
      using r(1) e(1) False sk cp by (simp add: batch_problems_def)
    from o r show ?thesis by simp
  qed
qed

lemma main_loop_recorded_observed:
  assumes "main_loop fuel E C ps st = Some (Inr st')"
    and "recorded (trace st) \<subseteq> set (observed (trace st))"
  shows "recorded (trace st') \<subseteq> set (observed (trace st'))"
  using assms
proof (induction ps arbitrary: st)
  case Nil
  then show ?case by simp
next
  case (Cons cp ps)
  obtain c p where cp: "cp = (c, p)" by (cases cp)
  from Cons.prems(1) cp obtain sk where sk: "skipped C c = Inr sk"
    by (auto split: sum.splits)
  show ?case
  proof (cases sk)
    case True
    with Cons.prems cp sk have "main_loop fuel E C ps st = Some (Inr st')" by simp
    from Cons.IH [OF this Cons.prems(2)] show ?thesis .
  next
    case False
    with Cons.prems(1) cp sk obtain st1 where
      p: "process_problem fuel E C p st = Some (Inr st1)"
      and m: "main_loop fuel E C ps st1 = Some (Inr st')"
      by (auto split: option.splits sum.splits)
    from process_problem_effect [OF p] obtain calls where
      e: "trace st1 = trace st @ Observe_with (index p) #
            Evaluate (index p) (replicate (dimension p) 0) # map (Invoke (index p)) calls"
      by blast
    have "recorded (trace st1) \<subseteq> set (observed (trace st1))"
      unfolding e using Cons.prems(2) by auto
    from Cons.IH [OF m this] show ?thesis .
  qed
qed

lemma process_problem_cma_ends:
  assumes "fmin C = Cma_fmin2" "10 \<le> fuel"
  shows "\<exists>st'. process_problem fuel E C p st = Some (Inr st')"
proof -
  obtain time1 p1 st1 where b: "before_restarts E p st = (time1, p1, st1)"
    by (cases "before_restarts E p st") auto
  from restart_loop_cma_ends [OF assms(1), of "- 1" fuel E p1 st1] assms(2)
  obtain i' p2 st2 where "restart_loop fuel E C (- 1) p1 st1 = Some (Inr (i', p2, st2))"
    by auto
  with b show ?thesis
    by (simp add: process_problem_def after_restarts_eq)
qed

lemma main_loop_cma_ends:
  assumes "fmin C = Cma_fmin2" "10 \<le> fuel" "batches C \<noteq> 0"
  shows "\<exists>st'. main_loop fuel E C ps st = Some (Inr st')"
proof (induction ps arbitrary: st)
  case Nil
  show ?case by simp
next
  case (Cons cp ps)
  obtain c p where cp: "cp = (c, p)" by (cases cp)
  from process_problem_cma_ends [OF assms(1,2), of E p st] obtain st1 where
    p: "process_problem fuel E C p st = Some (Inr st1)" by blast
  from Cons [of st] Cons [of st1] p cp assms(3) show ?case
    by (cases "int c mod batches C \<noteq> current_batch C mod batches C")
       (simp_all add: skipped_eq)
qed

text \<open>Nothing in the loop over the suite reads the global \<^verbatim>\<open>cocopp\<close>.\<close>

lemma evalsleft_cocopp [simp]: "evalsleft (C\<lparr>cocopp := v\<rparr>) p = evalsleft C p"
  by (simp add: evalsleft_def)

lemma loop_test_cocopp [simp]: "loop_test (C\<lparr>cocopp := v\<rparr>) p = loop_test C p"
  by (simp add: loop_test_def)

lemma restart_body_cocopp [simp]:
  "restart_body E (C\<lparr>cocopp := v\<rparr>) i p st = restart_body E C i p st"
  by (simp add: restart_body_def split: solver.splits sum.splits prod.splits)

lemma restart_loop_cocopp [simp]:
  "restart_loop fuel E (C\<lparr>cocopp := v\<rparr>) i p st = restart_loop fuel E C i p st"
  by (induction fuel arbitrary: i p st) (simp_all split: sum.splits)

lemma process_problem_cocopp [simp]:
  "process_problem fuel E (C\<lparr>cocopp := v\<rparr>) p st = process_problem fuel E C p st"
  by (simp add: process_problem_def after_restarts_def write_results_def
      split: prod.splits option.splits sum.splits)

lemma skipped_cocopp [simp]: "skipped (C\<lparr>cocopp := v\<rparr>) c = skipped C c"
  by (simp add: skipped_def split: sum.splits)

lemma main_loop_cocopp [simp]:
  "main_loop fuel E (C\<lparr>cocopp := v\<rparr>) ps st = main_loop fuel E C ps st"
  by (induction ps arbitrary: st) (auto split: sum.splits option.splits bool.splits)

lemma prepare_cocopp [simp]: "prepare (C\<lparr>cocopp := v\<rparr>) w = prepare C w"
  by (simp add: prepare_def)






subsection \<open>The claims\<close>




text \<open>
  C2 (as amended). With \<^verbatim>\<open>fmin = cma.fmin2\<close>, the branch the script configures, the
  restart loop ends after at most 10 optimizer invocations, whatever the optimizer and the
  problem do: fuel 10 suffices, \<open>irestart\<close> ends at 9 or below, and the trace grows by
  \<open>irestart + 1\<close> invocations.
\<close>

theorem cma_restarts_bounded:
  assumes "fmin C = Cma_fmin2" and "10 \<le> fuel"
  shows "\<exists>i' p' st'. restart_loop fuel E C (- 1) p st = Some (Inr (i', p', st')) \<and>
           i' \<le> 9 \<and> length (trace st') = length (trace st) + nat (i' + 1) \<and>
           nat (i' + 1) \<le> 10"
proof -
  from restart_loop_cma_ends [OF assms(1), of "- 1" fuel E p st] assms(2)
  obtain i' p' st' where r: "restart_loop fuel E C (- 1) p st = Some (Inr (i', p', st'))"
    and i: "i' \<le> 9" by auto
  from restart_loop_effect [OF r] obtain calls where
    "trace st' = trace st @ map (Invoke (index p)) calls" "length calls = nat (i' - (- 1))"
    by blast
  with r i show ?thesis by simp
qed

theorem cma_restarts_bounded_witness:
  "fmin (example_config Cma_fmin2 2) = Cma_fmin2 \<and> (10 :: nat) \<le> 10 \<and>
   (\<exists>i' p' st'.
      restart_loop 10 (example_externals 0) (example_config Cma_fmin2 2) (- 1)
        (example_problem 0 2 1) (prepare (example_config Cma_fmin2 2) 0) =
        Some (Inr (i', p', st')) \<and>
      i' \<le> 9 \<and>
      length (trace st') = 2 + nat (i' + 1) \<and>
      nat (i' + 1) \<le> 10)"
proof -
  have f: "fmin (example_config Cma_fmin2 2) = Cma_fmin2"
    by (simp add: example_config_def)
  from cma_restarts_bounded [OF f order_refl, of "example_externals 0" "example_problem 0 2 1"
      "prepare (example_config Cma_fmin2 2) 0"] f
  show ?thesis by (simp add: prepare_def)
qed

text \<open>
  C2 as stated fails for the other branches, which have no cap: under
  \<^verbatim>\<open>fmin = scipy.optimize.fmin_slsqp\<close>, with an optimizer that returns without evaluating,
  the loop has not ended after 10 runs of its body (nor after any number of them).
\<close>

theorem slsqp_restarts_unbounded:
  "restart_loop 10 (example_externals 0) (example_config Scipy_fmin_slsqp 2) (- 1)
     (example_problem 0 2 1) (prepare (example_config Scipy_fmin_slsqp 2) 0) = None"
  by code_simp

lemma slsqp_idle_never_ends:
  "restart_loop fuel (example_externals 0) (example_config Scipy_fmin_slsqp 2) i
     (example_problem 0 2 1) st = None"
proof (induction fuel arbitrary: i st)
  case 0
  show ?case
    by (simp add: loop_test_def evalsleft_def example_config_def example_problem_def py_int_def)
next
  case (Suc fuel)
  have t: "loop_test (example_config Scipy_fmin_slsqp 2) (example_problem 0 2 1)"
    by (simp add: loop_test_def evalsleft_def example_config_def example_problem_def py_int_def)
  have "\<exists>st'. restart_body (example_externals 0) (example_config Scipy_fmin_slsqp 2) (i + 1)
      (example_problem 0 2 1) st = Inr (False, example_problem 0 2 1, st')"
    by (simp add: restart_body_def run_fmin_def py_truediv_def example_config_def
        example_problem_def example_externals_def)
  then obtain st' where "restart_body (example_externals 0) (example_config Scipy_fmin_slsqp 2)
      (i + 1) (example_problem 0 2 1) st = Inr (False, example_problem 0 2 1, st')" ..
  with t Suc [of "i + 1" st'] show ?case by simp
qed

text \<open>
  C3. For a batch count \<open>n \<ge> 1\<close>, every position \<open>c\<close> of the suite's enumeration passes the
  batch filter of exactly one batch index \<open>i\<close> in \<open>1..n\<close>; the filter of batch \<open>j\<close> lets
  \<open>c\<close> pass exactly when \<open>c mod n = j mod n\<close>; and a run of the loop over the suite hands
  to the observer exactly the problems that pass its filter, in order.
\<close>

theorem batches_partition_suite:
  assumes "1 \<le> n"
  shows "(\<exists>!i. 1 \<le> i \<and> i \<le> n \<and>
            skipped (C\<lparr>batches := n, current_batch := i\<rparr>) c = Inr False) \<and>
         skipped (C\<lparr>batches := n, current_batch := j\<rparr>) c = Inr (int c mod n \<noteq> j mod n) \<and>
         (main_loop fuel E (C\<lparr>batches := n, current_batch := j\<rparr>) ps
              (prepare (C\<lparr>batches := n, current_batch := j\<rparr>) w) = Some (Inr st') \<longrightarrow>
            observed (trace st') =
              map index (batch_problems (C\<lparr>batches := n, current_batch := j\<rparr>) ps))"
proof -
  have s: "skipped (C\<lparr>batches := n, current_batch := k\<rparr>) c = Inr (int c mod n \<noteq> k mod n)" for k
    using assms by (simp add: skipped_eq)
  have u: "\<exists>!i. 1 \<le> i \<and> i \<le> n \<and> skipped (C\<lparr>batches := n, current_batch := i\<rparr>) c = Inr False"
    using batch_unique [OF assms, of c] unfolding s by simp
  let ?D = "C\<lparr>batches := n, current_batch := j\<rparr>"
  have "observed (trace st') = map index (batch_problems ?D ps)"
    if m: "main_loop fuel E ?D ps (prepare ?D w) = Some (Inr st')"
  proof -
    have "keys (stoppings (prepare ?D w)) = recorded (trace (prepare ?D w))"
      "\<forall>file. results_file (prepare ?D w) = Some file \<longrightarrow> literal file = stoppings (prepare ?D w)"
      by (simp_all add: prepare_def keys_def)
    from main_loop_effect [OF m this] show ?thesis by (simp add: prepare_def)
  qed
  with s u show ?thesis by blast
qed

theorem batches_partition_suite_witness:
  "(1 :: int) \<le> 8 \<and>
   (\<exists>!i. 1 \<le> i \<and> i \<le> 8 \<and>
      skipped ((example_config Cma_fmin2 2)\<lparr>batches := 8, current_batch := i\<rparr>) 10 = Inr False) \<and>
   skipped ((example_config Cma_fmin2 2)\<lparr>batches := 8, current_batch := 2\<rparr>) 10 = Inr False \<and>
   (\<exists>st'. main_loop 10 (example_externals 4)
        ((example_config Cma_fmin2 2)\<lparr>batches := 8, current_batch := 2\<rparr>)
        (enumerate 0 [example_problem 0 2 0, example_problem 1 2 0, example_problem 2 2 0])
        (prepare ((example_config Cma_fmin2 2)\<lparr>batches := 8, current_batch := 2\<rparr>) 0) =
        Some (Inr st') \<and>
      observed (trace st') = [2])"
proof -
  let ?D = "(example_config Cma_fmin2 2)\<lparr>batches := 8, current_batch := 2\<rparr>"
  let ?ps = "enumerate 0 [example_problem 0 2 0, example_problem 1 2 0, example_problem 2 2 0]"
  have h: "(1 :: int) \<le> 8" by simp
  have d: "fmin ?D = Cma_fmin2" "batches ?D \<noteq> 0" by (simp_all add: example_config_def)
  from main_loop_cma_ends [OF d(1) order_refl d(2), of "example_externals 4" ?ps "prepare ?D 0"]
  obtain st' where m: "main_loop 10 (example_externals 4) ?D ?ps (prepare ?D 0) = Some (Inr st')" ..
  have b: "map index (batch_problems ?D ?ps) = [2]" by code_simp
  from batches_partition_suite [OF h, where C = "example_config Cma_fmin2 2" and c = 10
      and j = 2 and fuel = 10 and E = "example_externals 4" and ps = ?ps and w = 0
      and st' = st'] m b
  show ?thesis by auto
qed

text \<open>
  C4 (as amended). After at least one problem has been processed, the results file read
  back has as keys exactly the identifiers of the problems on which an optimizer was
  invoked through a branch that appends its termination record (\<^verbatim>\<open>fmin\<close>,
  \<^verbatim>\<open>fmin_slsqp\<close>, the default branch); these are among the problems processed so far,
  which are the problems of the batch.
\<close>

theorem results_file_keys:
  assumes "main_loop fuel E C ps (prepare C w) = Some (Inr st')"
    and "batch_problems C ps \<noteq> []"
  shows "\<exists>f. results_file st' = Some f \<and>
           keys (literal_eval f) = recorded (trace st') \<and>
           recorded (trace st') \<subseteq> set (observed (trace st')) \<and>
           observed (trace st') = map index (batch_problems C ps)"
proof -
  have i: "keys (stoppings (prepare C w)) = recorded (trace (prepare C w))"
    "\<forall>file. results_file (prepare C w) = Some file \<longrightarrow> literal file = stoppings (prepare C w)"
    by (simp_all add: prepare_def keys_def)
  have j: "recorded (trace (prepare C w)) \<subseteq> set (observed (trace (prepare C w)))"
    by (simp add: prepare_def)
  from main_loop_effect [OF assms(1) i] assms(2) obtain f where
    "results_file st' = Some f" "literal f = stoppings st'"
    "keys (stoppings st') = recorded (trace st')"
    "observed (trace st') = map index (batch_problems C ps)"
    by (auto simp: prepare_def)
  with main_loop_recorded_observed [OF assms(1) j] show ?thesis
    by (simp add: literal_eval_def)
qed

theorem results_file_keys_witness:
  "batch_problems (example_config Cma_fmin2 2) [(0, example_problem 0 2 0)] \<noteq> [] \<and>
   (\<exists>st' f.
      main_loop 10 (example_externals 4) (example_config Cma_fmin2 2)
        [(0, example_problem 0 2 0)] (prepare (example_config Cma_fmin2 2) 0) = Some (Inr st') \<and>
      results_file st' = Some f \<and>
      keys (literal_eval f) = recorded (trace st') \<and>
      recorded (trace st') \<subseteq> set (observed (trace st')) \<and>
      observed (trace st') = [0])"
proof -
  let ?C = "example_config Cma_fmin2 2"
  let ?ps = "[(0 :: nat, example_problem 0 2 0)]"
  have b: "batch_problems ?C ?ps \<noteq> []" by code_simp
  have x: "map index (batch_problems ?C ?ps) = [0]" by code_simp
  have d: "fmin ?C = Cma_fmin2" "batches ?C \<noteq> 0" by (simp_all add: example_config_def)
  from main_loop_cma_ends [OF d(1) order_refl d(2), of "example_externals 4" ?ps "prepare ?C 0"]
  obtain st' where m: "main_loop 10 (example_externals 4) ?C ?ps (prepare ?C 0) = Some (Inr st')" ..
  from results_file_keys [OF m b] b m x show ?thesis by auto
qed

text \<open>
  C4 as stated fails where nothing is appended: under \<^verbatim>\<open>fmin = random_search\<close> a
  problem is processed and the file written after it holds the empty dictionary.
\<close>

theorem random_search_leaves_no_key:
  "processed (main_loop 1 (example_externals 0) (example_config Random_search 2)
      [(0, example_problem 0 2 0)] (prepare (example_config Random_search 2) 0)) = Some [0] \<and>
   file_keys (main_loop 1 (example_externals 0) (example_config Random_search 2)
      [(0, example_problem 0 2 0)] (prepare (example_config Random_search 2) 0)) = Some {}"
  by code_simp




text \<open>
  C6 (as amended). When the script runs as the main program, has passed line 81, and its
  first command-line argument is one of \<^verbatim>\<open>-h\<close>, \<^verbatim>\<open>help\<close>, \<^verbatim>\<open>-help\<close>,
  \<^verbatim>\<open>--help\<close>, it prints the module's documentation and raises \<^verbatim>\<open>ValueError\<close>; no
  suite is constructed and no experiment runs.
\<close>

theorem help_first_argument:
  assumes "run_as_main env" and "cma_installed env" and "1 < length (argv env)"
    and "argv env ! 1 \<in> set [''-h'', ''help'', ''-help'', ''--help'']"
  shows "startup env E =
           (Inl (ValueError ''printed help and aborted''), module_start env @ [Print_doc]) \<and>
         script fuel env E suite w =
           Some (module_start env @ [Print_doc], Inl (ValueError ''printed help and aborted'')) \<and>
         Construct_suite x y \<notin> set (module_start env @ [Print_doc])"
proof -
  have h: "help_requested (argv env)"
    using assms(3,4) unfolding help_requested_def by blast
  have s: "startup env E =
      (Inl (ValueError ''printed help and aborted''), module_start env @ [Print_doc])"
    using assms(1,2) h by (simp add: startup_def module_globals_def)
  have "Construct_suite x y \<notin> set (module_start env)"
    by (auto simp: module_start_def set_num_threads_def)
  with s show ?thesis by (simp add: script_def)
qed

theorem help_first_argument_witness:
  "run_as_main (example_environment [''--help'']) \<and>
   cma_installed (example_environment [''--help'']) \<and>
   1 < length (argv (example_environment [''--help''])) \<and>
   argv (example_environment [''--help'']) ! 1 \<in> set [''-h'', ''help'', ''-help'', ''--help''] \<and>
   startup (example_environment [''--help'']) (example_externals 4) =
     (Inl (ValueError ''printed help and aborted''),
      module_start (example_environment [''--help'']) @ [Print_doc]) \<and>
   script 10 (example_environment [''--help'']) (example_externals 4) [example_problem 0 2 0] 0 =
     Some (module_start (example_environment [''--help'']) @ [Print_doc],
           Inl (ValueError ''printed help and aborted''))"
proof -
  let ?env = "example_environment [''--help'']"
  have a: "run_as_main ?env" "cma_installed ?env" "1 < length (argv ?env)"
    "argv ?env ! 1 \<in> set [''-h'', ''help'', ''-help'', ''--help'']"
    by (simp_all add: example_environment_def)
  from help_first_argument [OF a, where E = "example_externals 4" and fuel = 10
      and suite = "[example_problem 0 2 0]" and w = 0] a
  show ?thesis by simp
qed

text \<open>
  C6 as stated fails for a help token that is not the first argument: line 96 looks at
  \<^verbatim>\<open>sys.argv[1]\<close> only, and the documentation is not printed, whatever
  \<^verbatim>\<open>args_to_dict\<close> then does with the tokens.
\<close>

theorem help_second_argument:
  "''--help'' \<in> set (drop 1 (argv (example_environment [''budget_multiplier=3'', ''--help'']))) \<and>
   Print_doc \<notin> set (snd (startup (example_environment [''budget_multiplier=3'', ''--help''])
                             (example_externals 4))) \<and>
   fst (startup (example_environment [''budget_multiplier=3'', ''--help''])
          (example_externals 4)) \<noteq> Inl (ValueError ''printed help and aborted'')"
  by code_simp

lemma help_not_first:
  "\<not> help_requested (argv env) \<Longrightarrow> Print_doc \<notin> set (snd (startup env E))"
  by (auto simp: startup_def module_start_def set_num_threads_def split: sum.splits)

lemma restart_body_no_popsize:
  assumes "fmin C \<noteq> Cma_fmin2" "restart_body E C i p st = Inr (stop, p', st')"
  shows "popsizes (trace st') = popsizes (trace st)"
  using assms
  by (cases "fmin C")
     (auto simp: restart_body_def run_fmin_def random_search_def py_truediv_def
        split: prod.splits sum.splits if_splits)

lemma restart_loop_no_popsize:
  assumes "fmin C \<noteq> Cma_fmin2"
  shows "restart_loop fuel E C i p st = Some (Inr (i', p', st')) \<Longrightarrow>
         popsizes (trace st') = popsizes (trace st)"
proof (induction fuel arbitrary: i p st)
  case 0
  then show ?case by (auto split: if_splits)
next
  case (Suc fuel)
  show ?case
  proof (cases "loop_test C p")
    case False
    with Suc.prems show ?thesis by simp
  next
    case True
    with Suc.prems obtain stop p1 st1 where
      b: "restart_body E C (i + 1) p st = Inr (stop, p1, st1)"
      by (auto split: sum.splits)
    from restart_body_no_popsize [OF assms b] have t: "popsizes (trace st1) = popsizes (trace st)" .
    show ?thesis
    proof (cases stop)
      case True
      with Suc.prems \<open>loop_test C p\<close> b t show ?thesis by auto
    next
      case False
      with Suc.prems \<open>loop_test C p\<close> b
      have "restart_loop fuel E C (i + 1) p1 st1 = Some (Inr (i', p', st'))" by auto
      from Suc.IH [OF this] t show ?thesis by simp
    qed
  qed
qed

text \<open>
  C7. The population sizes passed to the optimizer by a restart loop that starts at
  \<open>irestart = - 1\<close> are, in order, \<open>2 ^ k\<close> times the default population size of the
  problem's dimension for \<open>k = 0, 1, ...\<close>, one per attempt; they are passed in the default
  branch (\<^verbatim>\<open>cma.fmin2\<close>), the other branches pass none.
\<close>

theorem popsize_doubles:
  assumes "restart_loop fuel E C (- 1) p st = Some (Inr (i', p', st'))"
  shows "popsizes (trace st') =
           popsizes (trace st) @
             (if fmin C = Cma_fmin2
              then map (\<lambda>k. 2 ^ k * default_popsize E (dimension p)) [0..<nat (i' + 1)]
              else [])"
proof (cases "fmin C = Cma_fmin2")
  case True
  with restart_loop_cma_popsizes [OF True assms] show ?thesis by simp
next
  case False
  with restart_loop_no_popsize [OF False assms] show ?thesis by simp
qed

theorem popsize_doubles_witness:
  "restart_loop 10 (example_externals 2) (example_config Cma_fmin2 2) (- 1)
     (example_problem 0 2 1) (prepare (example_config Cma_fmin2 2) 0) =
     Some (Inr (1, example_problem 0 2 5,
       \<lparr>stoppings = [(0, [''maxfevals'', ''maxfevals''])], timings = [],
        results_file = None, world = 2,
        trace = [Construct_suite ''bbob'' [],
                 Construct_observer ''bbob'' ''result_folder: exdata'',
                 Invoke 0 (Fmin2_maxfevals_popsize 4 6),
                 Invoke 0 (Fmin2_maxfevals_popsize 2 12)]\<rparr>)) \<and>
   popsizes [Construct_suite ''bbob'' [],
             Construct_observer ''bbob'' ''result_folder: exdata'',
             Invoke 0 (Fmin2_maxfevals_popsize 4 6),
             Invoke 0 (Fmin2_maxfevals_popsize 2 12)] =
     [2 ^ 0 * default_popsize (example_externals 2) 2,
      2 ^ 1 * default_popsize (example_externals 2) 2]"
proof -
  let ?C = "example_config Cma_fmin2 2"
  let ?S = "\<lparr>stoppings = [(0, [''maxfevals'', ''maxfevals''])], timings = [],
        results_file = None, world = 2 :: nat,
        trace = [Construct_suite ''bbob'' [],
                 Construct_observer ''bbob'' ''result_folder: exdata'',
                 Invoke 0 (Fmin2_maxfevals_popsize 4 6),
                 Invoke 0 (Fmin2_maxfevals_popsize 2 12)]\<rparr>"
  have f: "fmin ?C = Cma_fmin2" by (simp add: example_config_def)
  have r: "restart_loop 10 (example_externals 2) ?C (- 1) (example_problem 0 2 1) (prepare ?C 0) =
      Some (Inr (1, example_problem 0 2 5, ?S))"
    by code_simp
  have u: "[0..<nat (1 + 1)] = [0, 1]" by (simp add: upt_rec)
  from popsize_doubles [OF r] f r u show ?thesis
    by (simp add: prepare_def example_problem_def)
qed

text \<open>
  C8. The batch filter reads the batch index modulo the batch count only: index 9 of 8
  and index 1 of 8 skip the same positions, and two runs with these settings, whatever
  else differs between them, hand the same problems to the observer.
\<close>

theorem batch_index_modulo:
  "skipped (C\<lparr>batches := 8, current_batch := 9\<rparr>) c =
     skipped (C\<lparr>batches := 8, current_batch := 1\<rparr>) c \<and>
   skipped (C\<lparr>current_batch := current_batch C mod batches C\<rparr>) c = skipped C c \<and>
   (main_loop fuel E (C\<lparr>batches := 8, current_batch := 9\<rparr>) ps
        (prepare (C\<lparr>batches := 8, current_batch := 9\<rparr>) w) = Some (Inr s9) \<longrightarrow>
    main_loop fuel' E' (C'\<lparr>batches := 8, current_batch := 1\<rparr>) ps
        (prepare (C'\<lparr>batches := 8, current_batch := 1\<rparr>) w') = Some (Inr s1) \<longrightarrow>
    observed (trace s9) = observed (trace s1))"
proof -
  have p: "observed (trace s) = map index (batch_problems D ps)"
    if m: "main_loop f X D ps (prepare D v) = Some (Inr s)"
    for f and X :: "('r, 'w) externals" and D v s
  proof -
    have "keys (stoppings (prepare D v)) = recorded (trace (prepare D v))"
      "\<forall>file. results_file (prepare D v) = Some file \<longrightarrow> literal file = stoppings (prepare D v)"
      by (simp_all add: prepare_def keys_def)
    from main_loop_effect [OF m this] show ?thesis by (simp add: prepare_def)
  qed
  have "batch_problems (C\<lparr>batches := 8, current_batch := 9\<rparr>) ps =
        batch_problems (C'\<lparr>batches := 8, current_batch := 1\<rparr>) ps"
    by (simp add: batch_problems_def skipped_eq)
  with p [of fuel E "C\<lparr>batches := 8, current_batch := 9\<rparr>" w s9]
    p [of fuel' E' "C'\<lparr>batches := 8, current_batch := 1\<rparr>" w' s1]
  show ?thesis by (simp add: skipped_eq)
qed

theorem batch_index_modulo_witness:
  "\<exists>s9 s1.
     main_loop 10 (example_externals 4)
       ((example_config Cma_fmin2 2)\<lparr>batches := 8, current_batch := 9\<rparr>)
       (enumerate 0 [example_problem 0 2 0, example_problem 1 2 0, example_problem 2 2 0])
       (prepare ((example_config Cma_fmin2 2)\<lparr>batches := 8, current_batch := 9\<rparr>) 0) =
       Some (Inr s9) \<and>
     main_loop 10 (example_externals 4)
       ((example_config Cma_fmin2 2)\<lparr>batches := 8, current_batch := 1\<rparr>)
       (enumerate 0 [example_problem 0 2 0, example_problem 1 2 0, example_problem 2 2 0])
       (prepare ((example_config Cma_fmin2 2)\<lparr>batches := 8, current_batch := 1\<rparr>) 0) =
       Some (Inr s1) \<and>
     observed (trace s9) = observed (trace s1)"
proof -
  let ?D9 = "(example_config Cma_fmin2 2)\<lparr>batches := 8, current_batch := 9\<rparr>"
  let ?D1 = "(example_config Cma_fmin2 2)\<lparr>batches := 8, current_batch := 1\<rparr>"
  let ?ps = "enumerate 0 [example_problem 0 2 0, example_problem 1 2 0, example_problem 2 2 0]"
  have d: "fmin ?D9 = Cma_fmin2" "batches ?D9 \<noteq> 0" "fmin ?D1 = Cma_fmin2" "batches ?D1 \<noteq> 0"
    by (simp_all add: example_config_def)
  from main_loop_cma_ends [OF d(1) order_refl d(2), of "example_externals 4" ?ps "prepare ?D9 0"]
  obtain s9 where m9: "main_loop 10 (example_externals 4) ?D9 ?ps (prepare ?D9 0) = Some (Inr s9)" ..
  from main_loop_cma_ends [OF d(3) order_refl d(4), of "example_externals 4" ?ps "prepare ?D1 0"]
  obtain s1 where m1: "main_loop 10 (example_externals 4) ?D1 ?ps (prepare ?D1 0) = Some (Inr s1)" ..
  from batch_index_modulo [where C = "example_config Cma_fmin2 2" and fuel = 10
      and E = "example_externals 4" and ps = ?ps and w = 0 and ?s9.0 = s9 and fuel' = 10
      and E' = "example_externals 4" and C' = "example_config Cma_fmin2 2" and w' = 0
      and ?s1.0 = s1] m9 m1
  show ?thesis by blast
qed

lemma before_restarts_problem:
  "fst (snd (before_restarts E p st)) =
     p\<lparr>state := fst (call_problem E (replicate (dimension p) 0) p (world st))\<rparr>"
  by (simp add: before_restarts_def split: prod.splits)

text \<open>
  C9. For a problem that is processed, the driver evaluates the problem once, at the
  all-zeros vector of its dimension, before any optimizer invocation, and the restart loop
  starts from the counters that evaluation left: no optimizer is invoked exactly when the
  loop test fails on them. When the evaluation counts as one (the suite's contract for a
  call of the problem), the remaining budget the loop starts with is not larger than
  before, and the quantity under \<^verbatim>\<open>int\<close> is smaller by one when
  \<open>evaluations_constraints \<le> evaluations\<close>.
\<close>

theorem initial_evaluation_counts:
  assumes "process_problem fuel E C p st = Some (Inr st')"
  shows "(\<exists>calls.
            trace st' = trace st @ Observe_with (index p) #
              Evaluate (index p) (replicate (dimension p) 0) # map (Invoke (index p)) calls \<and>
            (calls = [] \<longleftrightarrow> \<not> loop_test C (fst (snd (before_restarts E p st))))) \<and>
         state (fst (snd (before_restarts E p st))) =
           fst (call_problem E (replicate (dimension p) 0) p (world st)) \<and>
         (evaluations (fst (call_problem E (replicate (dimension p) 0) p (world st))) =
            Suc (evaluations (state p)) \<and>
          evaluations_constraints (fst (call_problem E (replicate (dimension p) 0) p (world st))) =
            evaluations_constraints (state p) \<longrightarrow>
            spec_remaining_budget C (fst (snd (before_restarts E p st))) \<le>
              spec_remaining_budget C p \<and>
            evalsleft C (fst (snd (before_restarts E p st))) \<le> evalsleft C p \<and>
            (evaluations_constraints (state p) \<le> evaluations (state p) \<longrightarrow>
               spec_remaining_budget C (fst (snd (before_restarts E p st))) =
                 spec_remaining_budget C p - 1))"
proof -
  let ?p1 = "fst (snd (before_restarts E p st))"
  let ?ps = "fst (call_problem E (replicate (dimension p) 0) p (world st))"
  have p1: "?p1 = p\<lparr>state := ?ps\<rparr>" by (rule before_restarts_problem)
  from process_problem_effect [OF assms] have
    t: "\<exists>calls.
            trace st' = trace st @ Observe_with (index p) #
              Evaluate (index p) (replicate (dimension p) 0) # map (Invoke (index p)) calls \<and>
            (calls = [] \<longleftrightarrow> \<not> loop_test C ?p1)"
    by blast
  have b: "spec_remaining_budget C ?p1 \<le> spec_remaining_budget C p \<and>
           evalsleft C ?p1 \<le> evalsleft C p \<and>
           (evaluations_constraints (state p) \<le> evaluations (state p) \<longrightarrow>
              spec_remaining_budget C ?p1 = spec_remaining_budget C p - 1)"
    if c: "evaluations ?ps = Suc (evaluations (state p))"
          "evaluations_constraints ?ps = evaluations_constraints (state p)"
  proof -
    have le: "spec_remaining_budget C ?p1 \<le> spec_remaining_budget C p"
      unfolding p1 using c by (simp add: spec_remaining_budget_def)
    have e: "evalsleft C q = py_int (spec_remaining_budget C q)" for q
      by (simp add: evalsleft_def spec_remaining_budget_def)
    have "evaluations_constraints (state p) \<le> evaluations (state p) \<longrightarrow>
              spec_remaining_budget C ?p1 = spec_remaining_budget C p - 1"
      unfolding p1 using c by (simp add: spec_remaining_budget_def max_def)
    with le py_int_mono [OF le] show ?thesis unfolding e by simp
  qed
  have "state ?p1 = ?ps" unfolding p1 by simp
  with t b show ?thesis by blast
qed

theorem initial_evaluation_counts_witness:
  "\<exists>st'.
     process_problem 10 (example_externals 4) (example_config Cma_fmin2 2)
       (example_problem 0 2 0) (prepare (example_config Cma_fmin2 2) 0) = Some (Inr st') \<and>
     evaluations (fst (call_problem (example_externals 4) (replicate 2 0)
        (example_problem 0 2 0) 0)) = Suc 0 \<and>
     evaluations_constraints (fst (call_problem (example_externals 4) (replicate 2 0)
        (example_problem 0 2 0) 0)) = 0 \<and>
     (\<exists>calls. trace st' =
        [Construct_suite ''bbob'' [], Construct_observer ''bbob'' ''result_folder: exdata'',
         Observe_with 0, Evaluate 0 [0, 0]] @ map (Invoke 0) calls) \<and>
     spec_remaining_budget (example_config Cma_fmin2 2)
        (fst (snd (before_restarts (example_externals 4) (example_problem 0 2 0)
           (prepare (example_config Cma_fmin2 2) 0)))) =
       spec_remaining_budget (example_config Cma_fmin2 2) (example_problem 0 2 0) - 1"
proof -
  let ?C = "example_config Cma_fmin2 2"
  let ?E = "example_externals 4"
  let ?p = "example_problem 0 2 0"
  have d: "fmin ?C = Cma_fmin2" by (simp add: example_config_def)
  from process_problem_cma_ends [OF d order_refl, of ?E ?p "prepare ?C 0"]
  obtain st' where m: "process_problem 10 ?E ?C ?p (prepare ?C 0) = Some (Inr st')" ..
  have c: "evaluations (fst (call_problem ?E (replicate (dimension ?p) 0) ?p
              (world (prepare ?C (0 :: nat) :: (string, nat) run_state)))) =
             Suc (evaluations (state ?p))"
          "evaluations_constraints (fst (call_problem ?E (replicate (dimension ?p) 0) ?p
              (world (prepare ?C (0 :: nat) :: (string, nat) run_state)))) =
             evaluations_constraints (state ?p)"
          "evaluations_constraints (state ?p) \<le> evaluations (state ?p)"
    by (simp_all add: example_externals_def example_problem_def)
  have v: "dimension ?p = 2" "index ?p = 0" "evaluations (state ?p) = 0"
    "evaluations_constraints (state ?p) = 0"
    "world (prepare ?C (0 :: nat) :: (string, nat) run_state) = 0"
    "trace (prepare ?C (0 :: nat) :: (string, nat) run_state) =
       [Construct_suite ''bbob'' [], Construct_observer ''bbob'' ''result_folder: exdata'']"
    by (simp_all add: example_problem_def prepare_def example_config_def)
  have r: "replicate 2 (0 :: rat) = [0, 0]" by (simp add: numeral_2_eq_2)
  from initial_evaluation_counts [OF m] c m show ?thesis
    unfolding v r by (intro exI [of _ st']) auto
qed

text \<open>
  C10. The timing sample is the elapsed time divided by the evaluation count when the
  count is not zero and is 0 otherwise; the division never raises, and the sample is
  appended to the list kept under the problem's dimension.
\<close>

theorem timing_sample_guarded:
  "timing_sample elapsed evals = Inr (if evals = 0 then 0 else elapsed / of_nat evals) \<and>
   (\<exists>st'. after_restarts E C time1 p st = Inr st' \<and>
      map_of (timings st') (dimension p) =
        Some ((case map_of (timings st) (dimension p) of None \<Rightarrow> [] | Some vs \<Rightarrow> vs) @
              [if evaluations (state p) = 0 then 0
               else (fst (time_time E (world st)) - time1) / of_nat (evaluations (state p))]))"
  by (simp add: timing_sample_eq after_restarts_eq write_results_def map_of_dd_append)

end
